theory Spec2Isabelle
  imports Complex_Main
begin

section \<open>The rotary control: value and angle\<close>

text \<open>
  \<^verbatim>\<open>CustomKnob\<close> receives \<^verbatim>\<open>min\<close> and \<^verbatim>\<open>max\<close> as props; its two conversion
  callbacks close over them. JavaScript numbers are modelled as reals, so rounding is not
  part of the model. In the source a control with \<^verbatim>\<open>min = max\<close> divides by zero; HOL's
  division returns 0 there, so every statement about \<open>valueToAngle\<close> assumes \<open>min < max\<close>.

  \<^verbatim>\<open>
  const valueToAngle = useCallback((val) => {
    return ((val - min) / (max - min)) * 270 - 135;
  }, [min, max]);

  const angleToValue = useCallback((angle) => {
    const clampedAngle = Math.max(-135, Math.min(135, angle));
    return min + ((clampedAngle + 135) / 270) * (max - min);
  }, [min, max]);
  \<close>
\<close>

definition valueToAngle :: "real \<Rightarrow> real \<Rightarrow> real \<Rightarrow> real" where
  "valueToAngle min_p max_p val = ((val - min_p) / (max_p - min_p)) * 270 - 135"

definition angleToValue :: "real \<Rightarrow> real \<Rightarrow> real \<Rightarrow> real" where
  "angleToValue min_p max_p angle =
     (let clampedAngle = max (- 135) (min 135 angle)
      in min_p + ((clampedAngle + 135) / 270) * (max_p - min_p))"

text \<open>
  The drag-move handler turns the difference of two \<^verbatim>\<open>Math.atan2\<close> results (radians)
  into degrees and folds it once in each direction:

  \<^verbatim>\<open>
  let angleDiff = (currentAngle - startAngleRef.current) * (180 / Math.PI);
  if (angleDiff > 180) angleDiff -= 360;
  if (angleDiff < -180) angleDiff += 360;
  \<close>
  \<^verbatim>\<open>Math.PI\<close> is the double nearest to \<open>\<pi>\<close>, and the largest magnitude \<^verbatim>\<open>Math.atan2\<close>
  returns.
\<close>

definition Math_PI :: real where
  "Math_PI = 884279719003555 / 281474976710656"

definition rawAngleDiff :: "real \<Rightarrow> real \<Rightarrow> real" where
  "rawAngleDiff currentAngle startAngle = (currentAngle - startAngle) * (180 / Math_PI)"

definition normalizeAngleDiff :: "real \<Rightarrow> real" where
  "normalizeAngleDiff angleDiff =
     (let d1 = (if angleDiff > 180 then angleDiff - 360 else angleDiff);
          d2 = (if d1 < - 180 then d1 + 360 else d1)
      in d2)"


section \<open>The synthesizer state and its reducer\<close>

text \<open>
  Audio objects (the context and the three nodes) are host objects; the state holds
  references to them, modelled as handles (natural numbers), \<open>None\<close> for \<^verbatim>\<open>null\<close>.
\<close>

record synth_state =
  audioContext :: "nat option"
  oscillator :: "nat option"
  gainNode :: "nat option"
  filterNode :: "nat option"
  isPlaying :: bool
  frequency :: real
  filterFrequency :: real
  waveform :: string
  error :: "string option"

definition initialState :: synth_state where
  "initialState = \<lparr> audioContext = None, oscillator = None, gainNode = None,
     filterNode = None, isPlaying = False, frequency = 440, filterFrequency = 1000,
     waveform = ''sine'', error = None \<rparr>"

datatype action =
    SET_AUDIO_CONTEXT "nat option"
  | SET_OSCILLATOR "nat option"
  | SET_GAIN_NODE "nat option"
  | SET_FILTER_NODE "nat option"
  | SET_PLAYING bool
  | SET_FREQUENCY real
  | SET_FILTER_FREQUENCY real
  | SET_WAVEFORM string
  | SET_ERROR "string option"
  | OTHER_ACTION

fun reducer :: "synth_state \<Rightarrow> action \<Rightarrow> synth_state" where
  "reducer state (SET_AUDIO_CONTEXT payload) = state\<lparr>audioContext := payload\<rparr>"
| "reducer state (SET_OSCILLATOR payload) = state\<lparr>oscillator := payload\<rparr>"
| "reducer state (SET_GAIN_NODE payload) = state\<lparr>gainNode := payload\<rparr>"
| "reducer state (SET_FILTER_NODE payload) = state\<lparr>filterNode := payload\<rparr>"
| "reducer state (SET_PLAYING payload) = state\<lparr>isPlaying := payload\<rparr>"
| "reducer state (SET_FREQUENCY payload) = state\<lparr>frequency := payload\<rparr>"
| "reducer state (SET_FILTER_FREQUENCY payload) = state\<lparr>filterFrequency := payload\<rparr>"
| "reducer state (SET_WAVEFORM payload) = state\<lparr>waveform := payload\<rparr>"
| "reducer state (SET_ERROR payload) = state\<lparr>error := payload\<rparr>"
| "reducer state OTHER_ACTION = state"

section \<open>The audio host\<close>

text \<open>
  The Web Audio API is an external collaborator. The model records every call the program
  makes on it, in order. The time argument of the scheduling calls is always the
  context's \<^verbatim>\<open>currentTime\<close> and is left out. The host decides whether constructing an
  \<^verbatim>\<open>AudioContext\<close> succeeds (\<open>supplies h n\<close> for the \<open>n\<close>-th construction) and whether a
  context is suspended; node factories and parameter calls on existing objects do not
  throw.
\<close>

datatype audio_param = OscillatorFrequency nat | GainGain nat | FilterFrequency nat

datatype audio_call =
    NewAudioContext nat
  | CreateOscillator nat nat
  | CreateGain nat nat
  | CreateBiquadFilter nat nat
  | SetType nat string
  | SetValueAtTime audio_param real
  | SetTargetAtTime audio_param real real
  | Connect nat nat
  | ConnectDestination nat nat
  | Start nat
  | Resume nat
  | Stop nat
  | Disconnect nat
  | Close nat

record host =
  supplies :: "nat \<Rightarrow> bool"
  constructions :: nat
  constructorMessage :: string
  nullMessage :: string
  nextHandle :: nat
  suspended :: "nat \<Rightarrow> bool"
  calls :: "audio_call list"

text \<open>
  A handler runs to completion against the state of the render that created it. Its
  \<^verbatim>\<open>dispatch\<close> calls only queue actions; the reducer is applied to the queue, in order,
  when the handler has returned. So a handler transforms a pair: the host and the queue.
\<close>

type_synonym effects = "host \<times> action list"

definition dispatch :: "action \<Rightarrow> effects \<Rightarrow> effects" where
  "dispatch a e = (fst e, snd e @ [a])"

definition call :: "audio_call \<Rightarrow> effects \<Rightarrow> effects" where
  "call c e = ((fst e)\<lparr>calls := calls (fst e) @ [c]\<rparr>, snd e)"

definition perform :: "(effects \<Rightarrow> effects) list \<Rightarrow> effects \<Rightarrow> effects" where
  "perform stmts e = foldl (\<lambda>x stmt. stmt x) e stmts"

definition skip :: "effects \<Rightarrow> effects" where
  "skip e = e"

section \<open>The handlers of WebSynth\<close>

text \<open>
  \<^verbatim>\<open>
  const setupAudio = useCallback(() => {
    if (state.audioContext) return;
    try {
      const context = new (window.AudioContext || window.webkitAudioContext)();
      dispatch({ type: 'SET_AUDIO_CONTEXT', payload: context });
      const osc = context.createOscillator();
      const gain = context.createGain();
      const filter = context.createBiquadFilter();
      osc.type = state.waveform;
      osc.frequency.setValueAtTime(state.frequency, context.currentTime);
      gain.gain.setValueAtTime(0, context.currentTime);
      filter.type = 'lowpass';
      filter.frequency.setValueAtTime(state.filterFrequency, context.currentTime);
      osc.connect(filter);
      filter.connect(gain);
      gain.connect(context.destination);
      dispatch({ type: 'SET_OSCILLATOR', payload: osc });
      dispatch({ type: 'SET_GAIN_NODE', payload: gain });
      dispatch({ type: 'SET_FILTER_NODE', payload: filter });
      osc.start();
    } catch (error) {
      dispatch({ type: 'SET_ERROR', payload: 'Failed to setup audio: ' + error.message });
    }
  }, [state.waveform, state.frequency, state.filterFrequency]);
  \<close>
  The first argument is the state the callback closed over.
\<close>

definition setupAudio :: "synth_state \<Rightarrow> effects \<Rightarrow> effects" where
  "setupAudio state e =
     (if audioContext state \<noteq> None then e
      else
        let h = fst e;
            e0 = (h\<lparr>constructions := Suc (constructions h)\<rparr>, snd e)
        in if \<not> supplies h (constructions h)
           then dispatch (SET_ERROR (Some (''Failed to setup audio: '' @ constructorMessage h))) e0
           else
             let context = nextHandle h;
                 osc = context + 1;
                 gain = context + 2;
                 filter_n = context + 3;
                 e1 = ((fst e0)\<lparr>nextHandle := context + 4\<rparr>, snd e0)
             in perform
                  [call (NewAudioContext context),
                   dispatch (SET_AUDIO_CONTEXT (Some context)),
                   call (CreateOscillator context osc),
                   call (CreateGain context gain),
                   call (CreateBiquadFilter context filter_n),
                   call (SetType osc (waveform state)),
                   call (SetValueAtTime (OscillatorFrequency osc) (frequency state)),
                   call (SetValueAtTime (GainGain gain) 0),
                   call (SetType filter_n ''lowpass''),
                   call (SetValueAtTime (FilterFrequency filter_n) (filterFrequency state)),
                   call (Connect osc filter_n),
                   call (Connect filter_n gain),
                   call (ConnectDestination gain context),
                   dispatch (SET_OSCILLATOR (Some osc)),
                   dispatch (SET_GAIN_NODE (Some gain)),
                   dispatch (SET_FILTER_NODE (Some filter_n)),
                   call (Start osc)] e1)"

text \<open>
  \<^verbatim>\<open>
  const handlePlayStop = useCallback(() => {
    if (!state.audioContext) {
      setupAudio();
      return;
    }
    try {
      if (state.audioContext.state === 'suspended') {
        state.audioContext.resume();
      }
      if (state.isPlaying) {
        state.gainNode.gain.setTargetAtTime(0, state.audioContext.currentTime, 0.015);
        dispatch({ type: 'SET_PLAYING', payload: false });
      } else {
        state.gainNode.gain.setTargetAtTime(0.5, state.audioContext.currentTime, 0.015);
        dispatch({ type: 'SET_PLAYING', payload: true });
      }
    } catch (error) {
      dispatch({ type: 'SET_ERROR', payload: 'Error in audio playback: ' + error.message });
    }
  }, [state.audioContext, state.isPlaying, state.gainNode, setupAudio]);
  \<close>
  \<open>state\<close> is the state of the current render (every field read here is a dependency);
  \<open>seen\<close> is the state the memoized \<^verbatim>\<open>setupAudio\<close> closed over. Reading \<^verbatim>\<open>.gain\<close> of a
  \<^verbatim>\<open>null\<close> gain node throws, which the handler catches.
\<close>

definition resumeIfSuspended :: "nat \<Rightarrow> effects \<Rightarrow> effects" where
  "resumeIfSuspended context e =
     (if suspended (fst e) context
      then call (Resume context) ((fst e)\<lparr>suspended := (suspended (fst e))(context := False)\<rparr>, snd e)
      else e)"

definition handlePlayStop :: "synth_state \<Rightarrow> synth_state \<Rightarrow> effects \<Rightarrow> effects" where
  "handlePlayStop state seen e =
     (case audioContext state of
        None \<Rightarrow> setupAudio seen e
      | Some context \<Rightarrow>
          let e1 = resumeIfSuspended context e
          in (case gainNode state of
                None \<Rightarrow>
                  dispatch (SET_ERROR (Some (''Error in audio playback: '' @ nullMessage (fst e1)))) e1
              | Some gain \<Rightarrow>
                  if isPlaying state
                  then perform [call (SetTargetAtTime (GainGain gain) 0 (15 / 1000)),
                                dispatch (SET_PLAYING False)] e1
                  else perform [call (SetTargetAtTime (GainGain gain) (5 / 10) (15 / 1000)),
                                dispatch (SET_PLAYING True)] e1))"

text \<open>
  \<^verbatim>\<open>
  const handleFrequencyChange = useCallback((newFrequency) => {
    dispatch({ type: 'SET_FREQUENCY', payload: newFrequency });
    if (state.oscillator && state.audioContext) {
      state.oscillator.frequency.setValueAtTime(newFrequency, state.audioContext.currentTime);
    }
  }, [state.oscillator, state.audioContext]);
  \<close>
  and likewise \<^verbatim>\<open>handleFilterChange\<close> on \<^verbatim>\<open>state.filterNode\<close>, and
  \<^verbatim>\<open>handleWaveformChange\<close>, which sets \<^verbatim>\<open>state.oscillator.type\<close>.
\<close>

definition handleFrequencyChange :: "synth_state \<Rightarrow> real \<Rightarrow> effects \<Rightarrow> effects" where
  "handleFrequencyChange state newFrequency e =
     perform
       [dispatch (SET_FREQUENCY newFrequency),
        (case (oscillator state, audioContext state) of
           (Some osc, Some context) \<Rightarrow> call (SetValueAtTime (OscillatorFrequency osc) newFrequency)
         | _ \<Rightarrow> skip)] e"

definition handleFilterChange :: "synth_state \<Rightarrow> real \<Rightarrow> effects \<Rightarrow> effects" where
  "handleFilterChange state newFilterFrequency e =
     perform
       [dispatch (SET_FILTER_FREQUENCY newFilterFrequency),
        (case (filterNode state, audioContext state) of
           (Some filter_n, Some context) \<Rightarrow>
             call (SetValueAtTime (FilterFrequency filter_n) newFilterFrequency)
         | _ \<Rightarrow> skip)] e"

definition handleWaveformChange :: "synth_state \<Rightarrow> string \<Rightarrow> effects \<Rightarrow> effects" where
  "handleWaveformChange state newWaveform e =
     perform
       [dispatch (SET_WAVEFORM newWaveform),
        (case oscillator state of
           Some osc \<Rightarrow> call (SetType osc newWaveform)
         | None \<Rightarrow> skip)] e"

text \<open>
  The handlers of one key of the keyboard (\<^verbatim>\<open>renderKey(freq)\<close>); the touch handlers are
  the same as the mouse handlers.
  \<^verbatim>\<open>
  onMouseDown={() => {
    if (!state.audioContext) setupAudio();
    handleFrequencyChange(freq);
    if (!state.isPlaying) handlePlayStop();
  }}
  onMouseUp={() => {
    if (state.isPlaying) handlePlayStop();
  }}
  \<close>
\<close>

definition keyDown :: "synth_state \<Rightarrow> synth_state \<Rightarrow> real \<Rightarrow> effects \<Rightarrow> effects" where
  "keyDown state seen freq e =
     perform
       [(if audioContext state = None then setupAudio seen else skip),
        handleFrequencyChange state freq,
        (if \<not> isPlaying state then handlePlayStop state seen else skip)] e"

definition keyUp :: "synth_state \<Rightarrow> synth_state \<Rightarrow> effects \<Rightarrow> effects" where
  "keyUp state seen e = (if isPlaying state then handlePlayStop state seen e else e)"

text \<open>The twelve keys rendered by \<^verbatim>\<open>WebSynth\<close>, left to right.\<close>

definition keyboard :: "real list" where
  "keyboard = [26163 / 100, 27718 / 100, 29366 / 100, 31113 / 100, 32963 / 100, 34923 / 100,
               36999 / 100, 392, 4153 / 10, 440, 46616 / 100, 49388 / 100]"

text \<open>
  The cleanup of the effect that owns the audio objects:
  \<^verbatim>\<open>
  if (state.oscillator) { state.oscillator.stop(); state.oscillator.disconnect(); }
  if (state.gainNode) state.gainNode.disconnect();
  if (state.filterNode) state.filterNode.disconnect();
  if (state.audioContext) state.audioContext.close();
  \<close>
\<close>

definition teardown :: "synth_state \<Rightarrow> host \<Rightarrow> host" where
  "teardown state h =
     h\<lparr>calls := calls h
         @ (case oscillator state of Some osc \<Rightarrow> [Stop osc, Disconnect osc] | None \<Rightarrow> [])
         @ (case gainNode state of Some gain \<Rightarrow> [Disconnect gain] | None \<Rightarrow> [])
         @ (case filterNode state of Some filter_n \<Rightarrow> [Disconnect filter_n] | None \<Rightarrow> [])
         @ (case audioContext state of Some context \<Rightarrow> [Close context] | None \<Rightarrow> [])\<rparr>"

section \<open>The drag state of a rotary control\<close>

text \<open>
  The three refs of \<^verbatim>\<open>CustomKnob\<close>. A pointer event reaches the model as the angle
  \<^verbatim>\<open>Math.atan2(e.clientY - knobCenter.y, e.clientX - knobCenter.x)\<close> of the pointer about
  the centre of the knob, in radians.
  \<^verbatim>\<open>
  const handleMouseDown = useCallback((e) => {
    ...
    startAngleRef.current = Math.atan2(e.clientY - knobCenter.y, e.clientX - knobCenter.x);
    startValueRef.current = value;
    isDraggingRef.current = true;
  }, [value]);

  const handleMouseMove = useCallback((e) => {
    if (!isDraggingRef.current || !knobRef.current) return;
    ...
    const newAngle = valueToAngle(startValueRef.current) + angleDiff;
    const newValue = angleToValue(newAngle);
    rotateKnob(newAngle);
    onChange(newValue);
  }, [onChange, valueToAngle, angleToValue, rotateKnob]);

  const handleMouseUp = useCallback(() => {
    isDraggingRef.current = false;
  }, []);
  \<close>
  \<open>handleMouseMove\<close> returns \<open>None\<close> when it returns early, and otherwise the angle given to
  \<^verbatim>\<open>rotateKnob\<close> with the value given to \<^verbatim>\<open>onChange\<close>. The element ref is set for as long
  as the control is mounted.
\<close>

record knob =
  isDragging :: bool
  startAngle :: real
  startValue :: real

definition initialKnob :: knob where
  "initialKnob = \<lparr> isDragging = False, startAngle = 0, startValue = 0 \<rparr>"

definition handleMouseDown :: "real \<Rightarrow> real \<Rightarrow> knob \<Rightarrow> knob" where
  "handleMouseDown val pointerAngle k =
     k\<lparr>startAngle := pointerAngle, startValue := val, isDragging := True\<rparr>"

definition handleMouseMove :: "real \<Rightarrow> real \<Rightarrow> knob \<Rightarrow> real \<Rightarrow> (real \<times> real) option" where
  "handleMouseMove min_p max_p k currentAngle =
     (if \<not> isDragging k then None
      else
        let angleDiff = normalizeAngleDiff (rawAngleDiff currentAngle (startAngle k));
            newAngle = valueToAngle min_p max_p (startValue k) + angleDiff;
            newValue = angleToValue min_p max_p newAngle
        in Some (newAngle, newValue))"

definition handleMouseUp :: "knob \<Rightarrow> knob" where
  "handleMouseUp k = k\<lparr>isDragging := False\<rparr>"

section \<open>The mounted application\<close>

text \<open>
  Each control registers its two listeners on \<^verbatim>\<open>document\<close> in an effect and removes them
  in the effect's cleanup:
  \<^verbatim>\<open>
  useEffect(() => {
    const handleGlobalMouseMove = (e) => { handleMouseMove(e); };
    const handleGlobalMouseUp = () => { handleMouseUp(); };
    document.addEventListener('mousemove', handleGlobalMouseMove);
    document.addEventListener('mouseup', handleGlobalMouseUp);
    return () => {
      document.removeEventListener('mousemove', handleGlobalMouseMove);
      document.removeEventListener('mouseup', handleGlobalMouseUp);
    };
  }, [handleMouseMove, handleMouseUp]);
  \<close>
  A listener is identified by its event type, the control that owns it and the run of
  the effect that created the closure. The effect runs when the control is mounted and
  again (after the cleanup of the previous run) whenever \<^verbatim>\<open>handleMouseMove\<close> changes, that
  is, whenever the control's \<^verbatim>\<open>onChange\<close> prop changes.
\<close>

datatype control = FREQUENCY | FILTER

datatype listener = Listener string control nat

definition addListeners :: "control \<Rightarrow> nat \<Rightarrow> listener list \<Rightarrow> listener list" where
  "addListeners c run doc = doc @ [Listener ''mousemove'' c run, Listener ''mouseup'' c run]"

definition removeListeners :: "control \<Rightarrow> nat \<Rightarrow> listener list \<Rightarrow> listener list" where
  "removeListeners c run doc =
     filter (\<lambda>l. l \<noteq> Listener ''mousemove'' c run \<and> l \<noteq> Listener ''mouseup'' c run) doc"

definition listening :: "listener list \<Rightarrow> string \<Rightarrow> control \<Rightarrow> nat \<Rightarrow> bool" where
  "listening doc ty c run = List.member doc (Listener ty c run)"

text \<open>
  \<open>synth\<close> is the state of the latest render, \<open>setupSeen\<close> the state the memoized
  \<^verbatim>\<open>setupAudio\<close> closed over (its dependencies are the waveform and the two
  frequencies, not the audio context), \<open>frequencyRun\<close> and \<open>filterRun\<close> count the runs of
  the listener effect of each control.
\<close>

record app =
  mounted :: bool
  synth :: synth_state
  setupSeen :: synth_state
  audio :: host
  frequencyKnob :: knob
  filterKnob :: knob
  frequencyRun :: nat
  filterRun :: nat
  document :: "listener list"

definition initialApp :: "host \<Rightarrow> app" where
  "initialApp h =
     \<lparr> mounted = True, synth = initialState, setupSeen = initialState, audio = h,
       frequencyKnob = initialKnob, filterKnob = initialKnob,
       frequencyRun = 0, filterRun = 0,
       document = addListeners FILTER 0 (addListeners FREQUENCY 0 []) \<rparr>"

text \<open>
  The render that follows a handler: the queue is reduced into the state, and every
  memoized callback and effect whose dependencies changed is renewed.
  \<^item> \<^verbatim>\<open>setupAudio\<close> closes over the new state when the waveform or one of the two
    frequencies changed;
  \<^item> \<^verbatim>\<open>handleFrequencyChange\<close> changes with \<^verbatim>\<open>state.oscillator\<close> and
    \<^verbatim>\<open>state.audioContext\<close>, \<^verbatim>\<open>handleFilterChange\<close> with \<^verbatim>\<open>state.filterNode\<close> and
    \<^verbatim>\<open>state.audioContext\<close>; the control they are given to then replaces its listeners;
  \<^item> the effect that owns the audio objects runs the cleanup of its previous run, on the
    previous state, when one of the four references changed.
  Without a dispatch there is no render.
\<close>

definition setupDeps :: "synth_state \<Rightarrow> string \<times> real \<times> real" where
  "setupDeps s = (waveform s, frequency s, filterFrequency s)"

definition graphDeps :: "synth_state \<Rightarrow> nat option \<times> nat option \<times> nat option \<times> nat option" where
  "graphDeps s = (oscillator s, gainNode s, filterNode s, audioContext s)"

definition renewListeners :: "control \<Rightarrow> nat \<Rightarrow> listener list \<Rightarrow> listener list" where
  "renewListeners c run doc = addListeners c (Suc run) (removeListeners c run doc)"

definition render :: "app \<Rightarrow> effects \<Rightarrow> app" where
  "render a e =
     (if snd e = [] then a\<lparr>audio := fst e\<rparr>
      else
        let old = synth a;
            new = foldl reducer old (snd e);
            frequencyChanged =
              ((oscillator new, audioContext new) \<noteq> (oscillator old, audioContext old));
            filterChanged =
              ((filterNode new, audioContext new) \<noteq> (filterNode old, audioContext old));
            doc1 = (if frequencyChanged
                    then renewListeners FREQUENCY (frequencyRun a) (document a)
                    else document a);
            doc2 = (if filterChanged then renewListeners FILTER (filterRun a) doc1 else doc1)
        in a\<lparr> synth := new,
               setupSeen := (if setupDeps new \<noteq> setupDeps (setupSeen a) then new else setupSeen a),
               audio := (if graphDeps new \<noteq> graphDeps old then teardown old (fst e) else fst e),
               frequencyRun := (if frequencyChanged then Suc (frequencyRun a) else frequencyRun a),
               filterRun := (if filterChanged then Suc (filterRun a) else filterRun a),
               document := doc2 \<rparr>)"

text \<open>
  The events the mounted application reacts to. A pointer move is delivered to
  \<^verbatim>\<open>document\<close>; it carries the pointer's angle about the centre of each control.
\<close>

datatype event =
    KnobDown control real
  | PointerMove real real
  | PointerUp
  | KeyDown nat
  | KeyUp nat
  | PlayClick
  | WaveformSelect string
  | Unmount

text \<open>What the handlers of an event do to the host and which actions they dispatch.\<close>

definition gesture :: "app \<Rightarrow> event \<Rightarrow> effects" where
  "gesture a ev =
     (let e = (audio a, []) in
      case ev of
        PointerMove frequencyAngle filterAngle \<Rightarrow>
          perform
            [(if listening (document a) ''mousemove'' FREQUENCY (frequencyRun a)
              then (case handleMouseMove 20 2000 (frequencyKnob a) frequencyAngle of
                      None \<Rightarrow> skip
                    | Some (newAngle, newValue) \<Rightarrow> handleFrequencyChange (synth a) newValue)
              else skip),
             (if listening (document a) ''mousemove'' FILTER (filterRun a)
              then (case handleMouseMove 20 20000 (filterKnob a) filterAngle of
                      None \<Rightarrow> skip
                    | Some (newAngle, newValue) \<Rightarrow> handleFilterChange (synth a) newValue)
              else skip)] e
      | KeyDown i \<Rightarrow>
          (if i < length keyboard then keyDown (synth a) (setupSeen a) (keyboard ! i) e else e)
      | KeyUp i \<Rightarrow>
          (if i < length keyboard then keyUp (synth a) (setupSeen a) e else e)
      | PlayClick \<Rightarrow> handlePlayStop (synth a) (setupSeen a) e
      | WaveformSelect w \<Rightarrow> handleWaveformChange (synth a) w e
      | _ \<Rightarrow> e)"

definition step :: "app \<Rightarrow> event \<Rightarrow> app" where
  "step a ev =
     (if \<not> mounted a then a
      else
        case ev of
          KnobDown FREQUENCY pointerAngle \<Rightarrow>
            a\<lparr>frequencyKnob := handleMouseDown (frequency (synth a)) pointerAngle (frequencyKnob a)\<rparr>
        | KnobDown FILTER pointerAngle \<Rightarrow>
            a\<lparr>filterKnob := handleMouseDown (filterFrequency (synth a)) pointerAngle (filterKnob a)\<rparr>
        | PointerUp \<Rightarrow>
            a\<lparr>frequencyKnob :=
                 (if listening (document a) ''mouseup'' FREQUENCY (frequencyRun a)
                  then handleMouseUp (frequencyKnob a) else frequencyKnob a),
               filterKnob :=
                 (if listening (document a) ''mouseup'' FILTER (filterRun a)
                  then handleMouseUp (filterKnob a) else filterKnob a)\<rparr>
        | Unmount \<Rightarrow>
            a\<lparr>mounted := False,
               audio := teardown (synth a) (audio a),
               document := removeListeners FILTER (filterRun a)
                             (removeListeners FREQUENCY (frequencyRun a) (document a))\<rparr>
        | _ \<Rightarrow> render a (gesture a ev))"

definition run :: "host \<Rightarrow> event list \<Rightarrow> app" where
  "run h evs = foldl step (initialApp h) evs"

text \<open>The ranges the two controls are rendered with.\<close>

definition inRange :: "synth_state \<Rightarrow> bool" where
  "inRange s = (20 \<le> frequency s \<and> frequency s \<le> 2000
              \<and> 20 \<le> filterFrequency s \<and> filterFrequency s \<le> 20000)"

fun writeInRange :: "action \<Rightarrow> bool" where
  "writeInRange (SET_FREQUENCY v) = (20 \<le> v \<and> v \<le> 2000)"
| "writeInRange (SET_FILTER_FREQUENCY v) = (20 \<le> v \<and> v \<le> 20000)"
| "writeInRange _ = True"

text \<open>A host that supplies every context, running, and one that refuses the first.\<close>

definition willingHost :: host where
  "willingHost = \<lparr> supplies = (\<lambda>n. True), constructions = 0,
     constructorMessage = ''not allowed'', nullMessage = ''null has no properties'',
     nextHandle = 0, suspended = (\<lambda>c. False), calls = [] \<rparr>"

definition reluctantHost :: host where
  "reluctantHost = willingHost\<lparr>supplies := (\<lambda>n. 0 < n)\<rparr>"

section \<open>Auxiliary notions for the statements\<close>

text \<open>
  What a successful \<open>setupAudio\<close> does, given the first free handle: the calls it makes on
  the host and the actions it dispatches.
\<close>

definition graphCalls :: "synth_state \<Rightarrow> nat \<Rightarrow> audio_call list" where
  "graphCalls state n =
     [NewAudioContext n, CreateOscillator n (n + 1), CreateGain n (n + 2),
      CreateBiquadFilter n (n + 3), SetType (n + 1) (waveform state),
      SetValueAtTime (OscillatorFrequency (n + 1)) (frequency state),
      SetValueAtTime (GainGain (n + 2)) 0, SetType (n + 3) ''lowpass'',
      SetValueAtTime (FilterFrequency (n + 3)) (filterFrequency state),
      Connect (n + 1) (n + 3), Connect (n + 3) (n + 2), ConnectDestination (n + 2) n,
      Start (n + 1)]"

definition graphActions :: "nat \<Rightarrow> action list" where
  "graphActions n = [SET_AUDIO_CONTEXT (Some n), SET_OSCILLATOR (Some (n + 1)),
      SET_GAIN_NODE (Some (n + 2)), SET_FILTER_NODE (Some (n + 3))]"

text \<open>
  A gain node is live from the call that connects it to the destination of its context.
  \<open>noStepWhileLive live cs\<close> reads a log of host calls from the left and holds when no
  \<^verbatim>\<open>gain.setValueAtTime\<close> in it addresses a gain node that is live at that point
  (\<open>live\<close> are the nodes live at the start).
\<close>

fun goesLive :: "audio_call \<Rightarrow> nat list" where
  "goesLive (ConnectDestination gain context) = [gain]"
| "goesLive _ = []"

fun gainStep :: "audio_call \<Rightarrow> nat option" where
  "gainStep (SetValueAtTime (GainGain gain) v) = Some gain"
| "gainStep _ = None"

fun noStepWhileLive :: "nat list \<Rightarrow> audio_call list \<Rightarrow> bool" where
  "noStepWhileLive live [] = True"
| "noStepWhileLive live (c # cs) =
     ((case gainStep c of Some gain \<Rightarrow> gain \<notin> set live | None \<Rightarrow> True)
      \<and> noStepWhileLive (goesLive c @ live) cs)"

fun liveAfter :: "nat list \<Rightarrow> audio_call list \<Rightarrow> nat list" where
  "liveAfter live [] = live"
| "liveAfter live (c # cs) = liveAfter (goesLive c @ live) cs"

definition logSound :: "host \<Rightarrow> bool" where
  "logSound h = (noStepWhileLive [] (calls h)
                 \<and> list_all (\<lambda>gain. gain < nextHandle h) (liveAfter [] (calls h)))"

definition quiet :: "audio_call \<Rightarrow> bool" where
  "quiet c = (gainStep c = None \<and> goesLive c = [])"


text \<open>Actions that set the playing flag, and host calls that schedule a fade.\<close>

fun togglesPlaying :: "action \<Rightarrow> bool" where
  "togglesPlaying (SET_PLAYING b) = True"
| "togglesPlaying _ = False"

fun isFade :: "audio_call \<Rightarrow> bool" where
  "isFade (SetTargetAtTime p target timeConstant) = True"
| "isFade _ = False"

fun isNewContext :: "audio_call \<Rightarrow> bool" where
  "isNewContext (NewAudioContext context) = True"
| "isNewContext _ = False"

text \<open>
  What the handlers of a render with state \<open>s\<close> may dispatch: a context, an error message
  (never \<^verbatim>\<open>null\<close>), and the playing flag only when \<open>s\<close> holds a context.
\<close>

fun admissible :: "synth_state \<Rightarrow> action \<Rightarrow> bool" where
  "admissible s (SET_AUDIO_CONTEXT payload) = (payload \<noteq> None)"
| "admissible s (SET_PLAYING payload) = (audioContext s \<noteq> None)"
| "admissible s (SET_ERROR payload) = (payload \<noteq> None)"
| "admissible s _ = True"



text \<open>
  The memoized \<^verbatim>\<open>setupAudio\<close> sees the waveform and the two frequencies of the latest
  render, and while the latest render has no audio context neither has the state
  \<^verbatim>\<open>setupAudio\<close> closed over, and the synth is not playing.
\<close>

definition coherent :: "app \<Rightarrow> bool" where
  "coherent a = (setupDeps (setupSeen a) = setupDeps (synth a)
     \<and> (audioContext (synth a) = None \<longrightarrow>
          audioContext (setupSeen a) = None \<and> \<not> isPlaying (synth a)))"



section \<open>Properties of the angle mapping\<close>

lemma angleToValue_bounds:
  "min_p \<le> max_p \<Longrightarrow> min_p \<le> angleToValue min_p max_p a \<and> angleToValue min_p max_p a \<le> max_p"
proof -
  assume le: "min_p \<le> max_p"
  define c where "c = max (- 135) (min 135 a)"
  define t where "t = (c + 135) / 270"
  have "- 135 \<le> c" "c \<le> 135" by (simp_all add: c_def)
  then have t: "0 \<le> t" "t \<le> 1" by (simp_all add: t_def)
  have v: "angleToValue min_p max_p a = min_p + t * (max_p - min_p)"
    by (simp add: angleToValue_def c_def t_def)
  from le have d: "0 \<le> max_p - min_p" by simp
  have "0 \<le> t * (max_p - min_p)" using t(1) d by (rule mult_nonneg_nonneg)
  moreover have "t * (max_p - min_p) \<le> 1 * (max_p - min_p)"
    using t(2) d by (rule mult_right_mono)
  ultimately show ?thesis using v by simp
qed

lemma rawAngleDiff_range:
  assumes "- Math_PI \<le> c" "c \<le> Math_PI" "- Math_PI \<le> s" "s \<le> Math_PI"
  shows "- 360 \<le> rawAngleDiff c s \<and> rawAngleDiff c s \<le> 360"
proof -
  have p: "0 < Math_PI" by (simp add: Math_PI_def)
  then have k: "0 < 180 / Math_PI" by simp
  have "c - s \<le> 2 * Math_PI" "- (2 * Math_PI) \<le> c - s" using assms by simp_all
  then have "(c - s) * (180 / Math_PI) \<le> (2 * Math_PI) * (180 / Math_PI)"
    and "(- (2 * Math_PI)) * (180 / Math_PI) \<le> (c - s) * (180 / Math_PI)"
    using k by (simp_all only: mult_le_cancel_right_pos)
  then show ?thesis using p by (simp add: rawAngleDiff_def)
qed



text \<open>
  C8. \<open>angleToValue\<close> clamps its argument to \<open>[-135, 135]\<close> before mapping it: every
  angle below \<open>-135\<close> gives exactly \<open>min\<close>, every angle above \<open>135\<close> gives exactly \<open>max\<close>
  (no wrap-around), and with \<open>min \<le> max\<close> no angle at all gives a value outside
  \<open>[min, max]\<close> (no extrapolation).
\<close>

theorem angleToValue_saturates:
  "(a < - 135 \<longrightarrow> angleToValue min_p max_p a = min_p)
   \<and> (135 < a \<longrightarrow> angleToValue min_p max_p a = max_p)
   \<and> angleToValue min_p max_p a = angleToValue min_p max_p (max (- 135) (min 135 a))
   \<and> (min_p \<le> max_p \<longrightarrow>
        min_p \<le> angleToValue min_p max_p a \<and> angleToValue min_p max_p a \<le> max_p)"
proof -
  have below: "a < - 135 \<longrightarrow> angleToValue min_p max_p a = min_p"
    by (simp add: angleToValue_def min_def max_def)
  have above: "135 < a \<longrightarrow> angleToValue min_p max_p a = max_p"
    by (simp add: angleToValue_def min_def max_def field_simps)
  have idem: "angleToValue min_p max_p a = angleToValue min_p max_p (max (- 135) (min 135 a))"
    by (simp add: angleToValue_def min_def max_def)
  from below above idem angleToValue_bounds show ?thesis by blast
qed

theorem angleToValue_saturates_witness:
  "(- 200 < (- 135::real)) \<and> angleToValue 20 2000 (- 200) = 20
   \<and> ((135::real) < 500) \<and> angleToValue 20 20000 500 = 20000"
  using angleToValue_saturates [of "- 200" 20 2000] angleToValue_saturates [of 500 20 20000]
  by simp

text \<open>
  C2 (as the code has it). The normalization adds or subtracts 360 at most once. Both
  comparisons are strict, so a raw delta of exactly \<open>-180\<close> is left as it is, and the
  image of the raw deltas in \<open>[-360, 360]\<close> (every difference of two \<^verbatim>\<open>atan2\<close>
  angles) is the closed interval \<open>[-180, 180]\<close>: strictly above \<open>-180\<close> for every raw delta
  other than \<open>-180\<close> itself. A raw delta of 200 normalizes to \<open>-160\<close>, one of \<open>-200\<close> to 160,
  and every delta within \<open>(-180, 180]\<close> is returned unchanged.
\<close>

theorem normalizeAngleDiff_range:
  assumes "- 360 \<le> d" "d \<le> 360"
  shows "- 180 \<le> normalizeAngleDiff d \<and> normalizeAngleDiff d \<le> 180
       \<and> (d \<noteq> - 180 \<longrightarrow> - 180 < normalizeAngleDiff d)
       \<and> (normalizeAngleDiff d = d \<or> normalizeAngleDiff d = d - 360
            \<or> normalizeAngleDiff d = d + 360)
       \<and> (- 180 < d \<and> d \<le> 180 \<longrightarrow> normalizeAngleDiff d = d)
       \<and> normalizeAngleDiff 200 = - 160
       \<and> normalizeAngleDiff (- 200) = 160
       \<and> normalizeAngleDiff (- 180) = - 180"
  using assms by (auto simp add: normalizeAngleDiff_def Let_def)

theorem normalizeAngleDiff_range_witness:
  "(- 360::real) \<le> 270 \<and> (270::real) \<le> 360 \<and> normalizeAngleDiff 270 = - 90
   \<and> - 180 < normalizeAngleDiff 270 \<and> normalizeAngleDiff 270 \<le> 180"
proof -
  have h: "(- 360::real) \<le> 270" "(270::real) \<le> 360" by simp_all
  have v: "normalizeAngleDiff 270 = - 90" by (simp add: normalizeAngleDiff_def)
  show ?thesis using normalizeAngleDiff_range [OF h] v by simp
qed

text \<open>
  The pointer starts due west of the knob's centre (\<^verbatim>\<open>Math.atan2(0, -1)\<close> is
  \<^verbatim>\<open>Math.PI\<close>) and moves due east (\<^verbatim>\<open>Math.atan2(0, 1)\<close> is 0): the raw delta is \<open>-180\<close>
  and stays \<open>-180\<close>, outside \<open>(-180, 180]\<close>.
\<close>

theorem normalizeAngleDiff_minus_180:
  "rawAngleDiff 0 Math_PI = - 180
   \<and> normalizeAngleDiff (rawAngleDiff 0 Math_PI) = - 180
   \<and> \<not> (- 180 < normalizeAngleDiff (rawAngleDiff 0 Math_PI))"
proof -
  have r: "rawAngleDiff 0 Math_PI = - 180" by (simp add: rawAngleDiff_def Math_PI_def)
  have n: "normalizeAngleDiff (- 180) = - 180" by (simp add: normalizeAngleDiff_def)
  from r n show ?thesis by simp
qed


section \<open>What the handlers compute\<close>


lemma setupAudio_present:
  "audioContext state = Some c \<Longrightarrow> setupAudio state e = e"
  by (simp add: setupAudio_def)

lemma setupAudio_refused:
  "audioContext state = None \<Longrightarrow> \<not> supplies h (constructions h) \<Longrightarrow>
   setupAudio state (h, q) =
     (h\<lparr>constructions := Suc (constructions h)\<rparr>,
      q @ [SET_ERROR (Some (''Failed to setup audio: '' @ constructorMessage h))])"
  by (simp add: setupAudio_def dispatch_def Let_def)

lemma setupAudio_supplied:
  "audioContext state = None \<Longrightarrow> supplies h (constructions h) \<Longrightarrow>
   setupAudio state (h, q) =
     (h\<lparr>constructions := Suc (constructions h), nextHandle := nextHandle h + 4,
        calls := calls h @ graphCalls state (nextHandle h)\<rparr>,
      q @ graphActions (nextHandle h))"
  by (simp add: setupAudio_def dispatch_def call_def perform_def Let_def graphCalls_def graphActions_def)

section \<open>The two frequencies stay in range\<close>


lemma writes_setupAudio:
  "list_all writeInRange (snd (setupAudio state e)) = list_all writeInRange (snd e)"
proof (cases e)
  case (Pair h q)
  show ?thesis
  proof (cases "audioContext state")
    case (Some c)
    then show ?thesis by (simp add: setupAudio_present)
  next
    case None
    then show ?thesis
      by (cases "supplies h (constructions h)")
         (simp_all add: Pair setupAudio_refused setupAudio_supplied graphActions_def)
  qed
qed

lemma writes_resumeIfSuspended:
  "snd (resumeIfSuspended c e) = snd e"
  by (simp add: resumeIfSuspended_def call_def)

lemma writes_handlePlayStop:
  "list_all writeInRange (snd (handlePlayStop state seen e)) = list_all writeInRange (snd e)"
  by (simp add: handlePlayStop_def writes_setupAudio writes_resumeIfSuspended Let_def
      perform_def call_def dispatch_def split: option.splits)

lemma writes_handleFrequencyChange:
  "list_all writeInRange (snd (handleFrequencyChange state v e))
     = (list_all writeInRange (snd e) \<and> 20 \<le> v \<and> v \<le> 2000)"
  by (simp add: handleFrequencyChange_def perform_def call_def dispatch_def skip_def
      split: option.splits)

lemma writes_handleFilterChange:
  "list_all writeInRange (snd (handleFilterChange state v e))
     = (list_all writeInRange (snd e) \<and> 20 \<le> v \<and> v \<le> 20000)"
  by (simp add: handleFilterChange_def perform_def call_def dispatch_def skip_def
      split: option.splits)

lemma writes_handleWaveformChange:
  "list_all writeInRange (snd (handleWaveformChange state w e)) = list_all writeInRange (snd e)"
  by (simp add: handleWaveformChange_def perform_def call_def dispatch_def skip_def
      split: option.splits)

lemma writes_keyDown:
  "list_all writeInRange (snd (keyDown state seen v e))
     = (list_all writeInRange (snd e) \<and> 20 \<le> v \<and> v \<le> 2000)"
  by (simp add: keyDown_def perform_def skip_def writes_setupAudio writes_handlePlayStop
      writes_handleFrequencyChange)

lemma writes_keyUp:
  "list_all writeInRange (snd (keyUp state seen e)) = list_all writeInRange (snd e)"
  by (simp add: keyUp_def writes_handlePlayStop)

lemma keyboard_in_range:
  "i < length keyboard \<Longrightarrow> 20 \<le> keyboard ! i \<and> keyboard ! i \<le> 2000"
proof -
  assume i: "i < length keyboard"
  have "\<forall>x \<in> set keyboard. 20 \<le> x \<and> x \<le> 2000" by (simp add: keyboard_def)
  with i show ?thesis using nth_mem by blast
qed

lemma handleMouseMove_in_range:
  "handleMouseMove min_p max_p k a = Some (newAngle, newValue) \<Longrightarrow> min_p \<le> max_p \<Longrightarrow>
   min_p \<le> newValue \<and> newValue \<le> max_p"
  using angleToValue_bounds [of min_p max_p]
  by (auto simp add: handleMouseMove_def Let_def split: if_splits)

lemma writes_gesture: "list_all writeInRange (snd (gesture a ev))"
proof (cases ev)
  case (PointerMove fa fi)
  have f: "list_all writeInRange (snd e) \<Longrightarrow> list_all writeInRange
     (snd ((case handleMouseMove 20 2000 (frequencyKnob a) fa of
                      None \<Rightarrow> skip
                    | Some (newAngle, newValue) \<Rightarrow> handleFrequencyChange (synth a) newValue) e))" for e
    using handleMouseMove_in_range [of 20 2000 "frequencyKnob a" fa]
    by (auto simp add: skip_def writes_handleFrequencyChange split: option.splits)
  have g: "list_all writeInRange (snd e) \<Longrightarrow> list_all writeInRange
     (snd ((case handleMouseMove 20 20000 (filterKnob a) fi of
                      None \<Rightarrow> skip
                    | Some (newAngle, newValue) \<Rightarrow> handleFilterChange (synth a) newValue) e))" for e
    using handleMouseMove_in_range [of 20 20000 "filterKnob a" fi]
    by (auto simp add: skip_def writes_handleFilterChange split: option.splits)
  show ?thesis using f g
    by (simp add: PointerMove gesture_def perform_def skip_def)
next
  case (KeyDown i)
  then show ?thesis
    by (simp add: gesture_def Let_def writes_keyDown keyboard_in_range)
qed (simp_all add: gesture_def Let_def writes_keyUp writes_handlePlayStop writes_handleWaveformChange)

lemma inRange_reducer:
  "inRange s \<Longrightarrow> writeInRange act \<Longrightarrow> inRange (reducer s act)"
  by (cases act) (simp_all add: inRange_def)

lemma inRange_foldl:
  "inRange s \<Longrightarrow> list_all writeInRange q \<Longrightarrow> inRange (foldl reducer s q)"
  by (induction q arbitrary: s) (simp_all add: inRange_reducer)

lemma synth_render:
  "synth (render a e) = foldl reducer (synth a) (snd e)"
  by (simp add: render_def Let_def)

lemma inRange_step:
  "inRange (synth a) \<Longrightarrow> inRange (synth (step a ev))"
proof (cases ev)
  case (KnobDown c x)
  then show "inRange (synth a) \<Longrightarrow> inRange (synth (step a ev))"
    by (cases c) (simp_all add: step_def)
qed (simp_all add: step_def synth_render inRange_foldl writes_gesture)

lemma inRange_run: "inRange (synth (run h evs))"
proof (induction evs rule: rev_induct)
  case Nil
  show ?case by (simp add: run_def initialApp_def initialState_def inRange_def)
next
  case (snoc ev evs)
  then show ?case by (simp add: run_def inRange_step)
qed

section \<open>Gain steps and live graphs\<close>

lemma noStepWhileLive_append:
  "noStepWhileLive live (xs @ ys)
     = (noStepWhileLive live xs \<and> noStepWhileLive (liveAfter live xs) ys)"
  by (induction xs arbitrary: live) simp_all

lemma liveAfter_append:
  "liveAfter live (xs @ ys) = liveAfter (liveAfter live xs) ys"
  by (induction xs arbitrary: live) simp_all

lemma quiet_calls:
  "list_all quiet cs \<Longrightarrow> noStepWhileLive live cs \<and> liveAfter live cs = live"
  by (induction cs arbitrary: live) (simp_all add: quiet_def)

lemma logSound_quiet:
  assumes "logSound h" "list_all quiet cs" "nextHandle h' = nextHandle h"
    "calls h' = calls h @ cs"
  shows "logSound h'"
  using assms quiet_calls [OF assms(2)]
  by (simp add: logSound_def noStepWhileLive_append liveAfter_append)

lemma graphCalls_live:
  "liveAfter live (graphCalls state n) = (n + 2) # live"
  by (simp add: graphCalls_def)

lemma graphCalls_noStep:
  "noStepWhileLive live (graphCalls state n) = (n + 2 \<notin> set live)"
  by (simp add: graphCalls_def)

lemma logSound_setupAudio:
  "logSound (fst e) \<Longrightarrow> logSound (fst (setupAudio state e))"
proof (cases e)
  case (Pair h q)
  assume s: "logSound (fst e)"
  show ?thesis
  proof (cases "audioContext state")
    case (Some c)
    then show ?thesis using s by (simp add: setupAudio_present)
  next
    case None
    show ?thesis
    proof (cases "supplies h (constructions h)")
      case False
      then show ?thesis using s None by (simp add: Pair setupAudio_refused logSound_def)
    next
      case True
      from s have a: "noStepWhileLive [] (calls h)"
        and b: "list_all (\<lambda>gain. gain < nextHandle h) (liveAfter [] (calls h))"
        by (simp_all add: Pair logSound_def)
      from b have fresh: "nextHandle h + 2 \<notin> set (liveAfter [] (calls h))"
        by (auto simp add: list_all_iff)
      from b have c: "list_all (\<lambda>gain. gain < nextHandle h + 4) (liveAfter [] (calls h))"
        by (auto simp add: list_all_iff)
      show ?thesis using a fresh c True None
        by (simp add: Pair setupAudio_supplied logSound_def noStepWhileLive_append
            liveAfter_append graphCalls_live graphCalls_noStep)
    qed
  qed
qed

lemma logSound_call:
  "logSound (fst e) \<Longrightarrow> quiet c \<Longrightarrow> logSound (fst (call c e))"
  by (rule logSound_quiet [where cs = "[c]"]) (simp_all add: call_def)

lemma logSound_dispatch: "fst (dispatch act e) = fst e"
  by (simp add: dispatch_def)

lemma logSound_resume:
  "logSound (fst e) \<Longrightarrow> logSound (fst (resumeIfSuspended c e))"
proof (cases "suspended (fst e) c")
  case True
  assume s: "logSound (fst e)"
  show ?thesis
    by (rule logSound_quiet [OF s, where cs = "[Resume c]"])
       (simp_all add: True resumeIfSuspended_def call_def quiet_def)
next
  case False
  then show "logSound (fst e) \<Longrightarrow> ?thesis" by (simp add: resumeIfSuspended_def)
qed

lemma logSound_handlePlayStop:
  "logSound (fst e) \<Longrightarrow> logSound (fst (handlePlayStop state seen e))"
  by (auto simp add: handlePlayStop_def Let_def perform_def logSound_dispatch quiet_def
      intro!: logSound_setupAudio logSound_call logSound_resume split: option.splits)

lemma logSound_handleFrequencyChange:
  "logSound (fst e) \<Longrightarrow> logSound (fst (handleFrequencyChange state v e))"
  by (auto simp add: handleFrequencyChange_def perform_def logSound_dispatch quiet_def skip_def
      intro!: logSound_call split: option.splits)

lemma logSound_handleFilterChange:
  "logSound (fst e) \<Longrightarrow> logSound (fst (handleFilterChange state v e))"
  by (auto simp add: handleFilterChange_def perform_def logSound_dispatch quiet_def skip_def
      intro!: logSound_call split: option.splits)

lemma logSound_handleWaveformChange:
  "logSound (fst e) \<Longrightarrow> logSound (fst (handleWaveformChange state w e))"
  by (auto simp add: handleWaveformChange_def perform_def logSound_dispatch quiet_def skip_def
      intro!: logSound_call split: option.splits)

lemma logSound_keyDown:
  "logSound (fst e) \<Longrightarrow> logSound (fst (keyDown state seen v e))"
  by (auto simp add: keyDown_def perform_def skip_def
      intro!: logSound_setupAudio logSound_handlePlayStop logSound_handleFrequencyChange)

lemma logSound_keyUp:
  "logSound (fst e) \<Longrightarrow> logSound (fst (keyUp state seen e))"
  by (auto simp add: keyUp_def intro!: logSound_handlePlayStop)

lemma logSound_gesture:
  "logSound (audio a) \<Longrightarrow> logSound (fst (gesture a ev))"
  by (cases ev)
     (auto simp add: gesture_def Let_def perform_def skip_def
      intro!: logSound_keyDown logSound_keyUp logSound_handlePlayStop
        logSound_handleWaveformChange logSound_handleFrequencyChange logSound_handleFilterChange
      split: option.splits)

lemma logSound_teardown:
  "logSound h \<Longrightarrow> logSound (teardown state h)"
  by (rule logSound_quiet [where cs =
        "(case oscillator state of Some osc \<Rightarrow> [Stop osc, Disconnect osc] | None \<Rightarrow> [])
         @ (case gainNode state of Some gain \<Rightarrow> [Disconnect gain] | None \<Rightarrow> [])
         @ (case filterNode state of Some filter_n \<Rightarrow> [Disconnect filter_n] | None \<Rightarrow> [])
         @ (case audioContext state of Some context \<Rightarrow> [Close context] | None \<Rightarrow> [])"])
     (simp_all add: teardown_def quiet_def split: option.splits)

lemma logSound_render:
  "logSound (fst e) \<Longrightarrow> logSound (audio (render a e))"
  by (simp add: render_def Let_def logSound_teardown)

lemma logSound_step:
  assumes "logSound (audio a)"
  shows "logSound (audio (step a ev))"
proof (cases "mounted a")
  case False
  then show ?thesis using assms by (simp add: step_def)
next
  case True
  have r: "logSound (audio (render a (gesture a ev)))"
    using assms by (intro logSound_render logSound_gesture)
  show ?thesis
  proof (cases ev)
    case (KnobDown c x)
    then show ?thesis using assms True by (cases c) (simp_all add: step_def)
  next
    case Unmount
    then show ?thesis using assms True by (simp add: step_def logSound_teardown)
  next
    case PointerUp
    then show ?thesis using assms True by (simp add: step_def)
  qed (use r True in \<open>simp_all add: step_def\<close>)
qed

lemma logSound_run:
  "logSound h \<Longrightarrow> logSound (audio (run h evs))"
proof (induction evs rule: rev_induct)
  case Nil
  then show ?case by (simp add: run_def initialApp_def)
next
  case (snoc ev evs)
  then show ?case by (simp add: run_def logSound_step)
qed

section \<open>What a render can change\<close>


lemma admissible_setupAudio:
  "list_all (admissible s) (snd (setupAudio state e)) = list_all (admissible s) (snd e)"
proof (cases e)
  case (Pair h q)
  show ?thesis
  proof (cases "audioContext state")
    case (Some c)
    then show ?thesis by (simp add: setupAudio_present)
  next
    case None
    then show ?thesis
      by (cases "supplies h (constructions h)")
         (simp_all add: Pair setupAudio_refused setupAudio_supplied graphActions_def)
  qed
qed

lemma admissible_handlePlayStop:
  "list_all (admissible s) (snd (handlePlayStop s seen e)) = list_all (admissible s) (snd e)"
  by (simp add: handlePlayStop_def admissible_setupAudio writes_resumeIfSuspended Let_def
      perform_def call_def dispatch_def split: option.splits)

lemma admissible_handleFrequencyChange:
  "list_all (admissible s) (snd (handleFrequencyChange state v e)) = list_all (admissible s) (snd e)"
  by (simp add: handleFrequencyChange_def perform_def call_def dispatch_def skip_def
      split: option.splits)

lemma admissible_handleFilterChange:
  "list_all (admissible s) (snd (handleFilterChange state v e)) = list_all (admissible s) (snd e)"
  by (simp add: handleFilterChange_def perform_def call_def dispatch_def skip_def
      split: option.splits)

lemma admissible_handleWaveformChange:
  "list_all (admissible s) (snd (handleWaveformChange state w e)) = list_all (admissible s) (snd e)"
  by (simp add: handleWaveformChange_def perform_def call_def dispatch_def skip_def
      split: option.splits)

lemma admissible_keyDown:
  "list_all (admissible s) (snd (keyDown s seen v e)) = list_all (admissible s) (snd e)"
  by (simp add: keyDown_def perform_def skip_def admissible_setupAudio admissible_handlePlayStop
      admissible_handleFrequencyChange)

lemma admissible_keyUp:
  "list_all (admissible s) (snd (keyUp s seen e)) = list_all (admissible s) (snd e)"
  by (simp add: keyUp_def admissible_handlePlayStop)

lemma admissible_gesture: "list_all (admissible (synth a)) (snd (gesture a ev))"
  by (cases ev)
     (simp_all add: gesture_def Let_def perform_def skip_def admissible_keyDown admissible_keyUp
        admissible_handlePlayStop admissible_handleWaveformChange
        admissible_handleFrequencyChange admissible_handleFilterChange split: option.splits)

lemma admissible_foldl:
  "list_all (admissible s) q \<Longrightarrow>
     (audioContext s \<noteq> None \<longrightarrow> audioContext (foldl reducer s q) \<noteq> None)
   \<and> (audioContext s = None \<longrightarrow> isPlaying (foldl reducer s q) = isPlaying s)
   \<and> (error s \<noteq> None \<longrightarrow> error (foldl reducer s q) \<noteq> None)"
proof (induction q rule: rev_induct)
  case Nil
  show ?case by simp
next
  case (snoc x xs)
  then have ih: "(audioContext s \<noteq> None \<longrightarrow> audioContext (foldl reducer s xs) \<noteq> None)
   \<and> (audioContext s = None \<longrightarrow> isPlaying (foldl reducer s xs) = isPlaying s)
   \<and> (error s \<noteq> None \<longrightarrow> error (foldl reducer s xs) \<noteq> None)"
    and x: "admissible s x" by simp_all
  show ?case using ih x by (cases x) auto
qed

lemma coherent_render:
  assumes "coherent a" "list_all (admissible (synth a)) (snd e)"
  shows "coherent (render a e)"
proof (cases "snd e = []")
  case True
  then show ?thesis using assms(1) by (simp add: render_def coherent_def)
next
  case False
  from admissible_foldl [OF assms(2)] assms(1) False show ?thesis
    by (auto simp add: render_def coherent_def Let_def)
qed

lemma coherent_step: "coherent a \<Longrightarrow> coherent (step a ev)"
proof (cases ev)
  case (KnobDown c x)
  then show "coherent a \<Longrightarrow> ?thesis" by (cases c) (simp_all add: step_def coherent_def)
qed (simp_all add: step_def coherent_render admissible_gesture, simp_all add: coherent_def)

lemma coherent_run: "coherent (run h evs)"
proof (induction evs rule: rev_induct)
  case Nil
  show ?case by (simp add: run_def initialApp_def initialState_def coherent_def)
next
  case (snoc ev evs)
  then show ?case by (simp add: run_def coherent_step)
qed

lemma error_kept_step:
  "error (synth a) \<noteq> None \<Longrightarrow> error (synth (step a ev)) \<noteq> None"
proof (cases ev)
  case (KnobDown c x)
  then show "error (synth a) \<noteq> None \<Longrightarrow> ?thesis" by (cases c) (simp_all add: step_def)
qed (use admissible_foldl [OF admissible_gesture, of a ev] in
      \<open>simp_all add: step_def synth_render\<close>)

lemma setupAudio_same_view:
  "audioContext s = audioContext s' \<Longrightarrow> setupDeps s = setupDeps s' \<Longrightarrow>
   setupAudio s e = setupAudio s' e"
  by (simp add: setupAudio_def setupDeps_def Let_def)


lemma setupAudio_no_toggle:
  "list_ex togglesPlaying (snd (setupAudio state e)) = list_ex togglesPlaying (snd e)"
proof (cases e)
  case (Pair h q)
  show ?thesis
  proof (cases "audioContext state")
    case (Some c)
    then show ?thesis by (simp add: setupAudio_present)
  next
    case None
    then show ?thesis
      by (cases "supplies h (constructions h)")
         (simp_all add: Pair setupAudio_refused setupAudio_supplied graphActions_def)
  qed
qed

lemma setupAudio_no_fade:
  "list_ex isFade (drop (length (calls h)) (calls (fst (setupAudio state (h, q))))) = False"
proof (cases "audioContext state")
  case (Some c)
  then show ?thesis by (simp add: setupAudio_present)
next
  case None
  then show ?thesis
    by (cases "supplies h (constructions h)")
       (simp_all add: setupAudio_refused setupAudio_supplied graphCalls_def)
qed

lemma no_toggle_foldl:
  "\<not> list_ex togglesPlaying q \<Longrightarrow> isPlaying (foldl reducer s q) = isPlaying s"
proof (induction q arbitrary: s)
  case Nil
  show ?case by simp
next
  case (Cons x xs)
  then show ?case by (cases x) simp_all
qed

lemma teardown_nothing:
  "oscillator s = None \<Longrightarrow> gainNode s = None \<Longrightarrow> filterNode s = None \<Longrightarrow>
   audioContext s = None \<Longrightarrow> teardown s h = h"
  by (simp add: teardown_def)


section \<open>The listeners on the document\<close>






lemma mounted_render: "mounted (render a e) = mounted a"
  by (simp add: render_def Let_def)








section \<open>The keys when a graph exists\<close>

text \<open>
  With a context and a gain node in the state, pressing a key while stopped starts
  playing at the pitch of the key, and releasing it while playing stops and keeps the
  frequency.
\<close>


lemma key_press_with_graph:
  assumes "mounted a" "audioContext (synth a) = Some context" "gainNode (synth a) = Some gain"
    "\<not> isPlaying (synth a)" "i < length keyboard"
  shows "isPlaying (synth (step a (KeyDown i)))
       \<and> frequency (synth (step a (KeyDown i))) = keyboard ! i"
  using assms
  by (simp add: step_def synth_render gesture_def keyDown_def handlePlayStop_def
      handleFrequencyChange_def resumeIfSuspended_def perform_def skip_def call_def dispatch_def
      Let_def split: option.splits)

lemma key_release_with_graph:
  assumes "mounted a" "audioContext (synth a) = Some context" "gainNode (synth a) = Some gain"
    "isPlaying (synth a)" "i < length keyboard"
  shows "\<not> isPlaying (synth (step a (KeyUp i)))
       \<and> frequency (synth (step a (KeyUp i))) = frequency (synth a)"
  using assms
  by (simp add: step_def synth_render gesture_def keyUp_def handlePlayStop_def
      resumeIfSuspended_def perform_def skip_def call_def dispatch_def
      Let_def split: option.splits)


section \<open>Claims about the synthesizer\<close>

text \<open>
  C1. In every state reached from the initial state by any sequence of events, on any
  host, the frequency lies in \<open>[20, 2000]\<close> and the filter cutoff in \<open>[20, 20000]\<close>, and
  every write of either value that a gesture dispatches in such a state carries a value
  inside its range. The reducer stores the payload as it is given; the values are in
  range because a control emits only what \<open>angleToValue\<close> returns, after clamping the
  angle, and because every pitch of the keyboard lies in \<open>[20, 2000]\<close>.
\<close>

theorem frequencies_stay_in_range:
  "inRange (synth (run h evs)) \<and> list_all writeInRange (snd (gesture (run h evs) ev))"
  using inRange_run writes_gesture by simp

theorem frequencies_stay_in_range_witness:
  "frequency (synth (run willingHost [KnobDown FREQUENCY 0, PointerMove Math_PI 0])) = 1760
   \<and> inRange (synth (run willingHost [KnobDown FREQUENCY 0, PointerMove Math_PI 0]))
   \<and> snd (gesture (run willingHost [KnobDown FREQUENCY 0, PointerMove Math_PI 0])
             (PointerMove (- Math_PI) 0)) = [SET_FREQUENCY 20]"
proof -
  have f: "frequency (synth (run willingHost [KnobDown FREQUENCY 0, PointerMove Math_PI 0])) = 1760"
    by code_simp
  have g: "snd (gesture (run willingHost [KnobDown FREQUENCY 0, PointerMove Math_PI 0])
             (PointerMove (- Math_PI) 0)) = [SET_FREQUENCY 20]"
    by code_simp
  from f g frequencies_stay_in_range [of willingHost "[KnobDown FREQUENCY 0, PointerMove Math_PI 0]"]
  show ?thesis by simp
qed

text \<open>
  C6. On a state that holds an audio context and a gain node, the play/stop handler
  resumes the context if it is suspended and then makes exactly one call on the gain:
  \<^verbatim>\<open>setTargetAtTime\<close> with time constant 0.015 and target 0.5 when the synth was stopped,
  target 0 when it was playing; it dispatches the flipped playing flag. And in the log of
  host calls of every run that starts with an empty log, no \<^verbatim>\<open>gain.setValueAtTime\<close>
  addresses a gain node that is live: the only such call is the one \<open>setupAudio\<close> makes on
  the node it has just created, before connecting it.
\<close>

theorem gain_moves_only_by_fades:
  assumes "audioContext state = Some context" "gainNode state = Some gain"
  shows "handlePlayStop state seen (h, q) =
           (let h1 = fst (resumeIfSuspended context (h, q))
            in (h1\<lparr>calls := calls h1 @ [SetTargetAtTime (GainGain gain)
                                          (if isPlaying state then 0 else 5 / 10) (15 / 1000)]\<rparr>,
                q @ [SET_PLAYING (\<not> isPlaying state)]))
       \<and> (calls h0 = [] \<longrightarrow> noStepWhileLive [] (calls (audio (run h0 evs))))"
proof -
  have a: "handlePlayStop state seen (h, q) =
           (let h1 = fst (resumeIfSuspended context (h, q))
            in (h1\<lparr>calls := calls h1 @ [SetTargetAtTime (GainGain gain)
                                          (if isPlaying state then 0 else 5 / 10) (15 / 1000)]\<rparr>,
                q @ [SET_PLAYING (\<not> isPlaying state)]))"
    using assms
    by (simp add: handlePlayStop_def Let_def perform_def call_def dispatch_def
        writes_resumeIfSuspended)
  have b: "calls h0 = [] \<longrightarrow> noStepWhileLive [] (calls (audio (run h0 evs)))"
  proof
    assume "calls h0 = []"
    then have "logSound h0" by (simp add: logSound_def)
    then have "logSound (audio (run h0 evs))" by (rule logSound_run)
    then show "noStepWhileLive [] (calls (audio (run h0 evs)))" by (simp add: logSound_def)
  qed
  from a b show ?thesis by simp
qed

theorem gain_moves_only_by_fades_witness:
  "audioContext (synth (run willingHost [PlayClick])) = Some 0
   \<and> gainNode (synth (run willingHost [PlayClick])) = Some 2
   \<and> drop 13 (calls (audio (run willingHost [PlayClick, PlayClick, PlayClick])))
       = [SetTargetAtTime (GainGain 2) (5 / 10) (15 / 1000),
          SetTargetAtTime (GainGain 2) 0 (15 / 1000)]
   \<and> calls (fst (handlePlayStop (synth (run willingHost [PlayClick])) initialState
                    (audio (run willingHost [PlayClick]), [])))
       = calls (audio (run willingHost [PlayClick]))
         @ [SetTargetAtTime (GainGain 2) (5 / 10) (15 / 1000)]
   \<and> calls willingHost = []
   \<and> noStepWhileLive [] (calls (audio (run willingHost [KeyDown 0, KeyDown 0, KeyUp 0])))"
proof -
  have c: "audioContext (synth (run willingHost [PlayClick])) = Some 0" by code_simp
  have g: "gainNode (synth (run willingHost [PlayClick])) = Some 2" by code_simp
  have p: "\<not> isPlaying (synth (run willingHost [PlayClick]))" by code_simp
  have s: "\<not> suspended (audio (run willingHost [PlayClick])) 0" by code_simp
  have d: "drop 13 (calls (audio (run willingHost [PlayClick, PlayClick, PlayClick])))
       = [SetTargetAtTime (GainGain 2) (5 / 10) (15 / 1000),
          SetTargetAtTime (GainGain 2) 0 (15 / 1000)]"
    by code_simp
  have e: "calls willingHost = []" by (simp add: willingHost_def)
  from gain_moves_only_by_fades [OF c g, where seen = initialState
      and h = "audio (run willingHost [PlayClick])" and q = "[]"
      and ?h0.0 = willingHost and evs = "[KeyDown 0, KeyDown 0, KeyUp 0]"] p s c g d e
  show ?thesis by (simp add: resumeIfSuspended_def Let_def)
qed

text \<open>
  C10. When the state of the current render holds no audio context, a click on the
  play/stop button does nothing but call \<open>setupAudio\<close>: no action sets the playing flag,
  the flag is the same after the render, and no fade is scheduled. On a freshly mounted
  synth whose host supplies a context, the click installs the four references of a new
  graph, whose gain was set to 0, and changes nothing else. In every reachable state
  without a context the closure of \<open>setupAudio\<close> has no context either and sees the
  current waveform and frequencies, so the creation is really attempted.
\<close>

theorem play_without_context_only_creates_graph:
  assumes "mounted a" "audioContext (synth a) = None"
  shows "gesture a PlayClick = setupAudio (setupSeen a) (audio a, [])
       \<and> \<not> list_ex togglesPlaying (snd (gesture a PlayClick))
       \<and> isPlaying (synth (step a PlayClick)) = isPlaying (synth a)
       \<and> \<not> list_ex isFade (drop (length (calls (audio a))) (calls (fst (gesture a PlayClick))))
       \<and> (supplies h (constructions h) \<longrightarrow>
            synth (step (initialApp h) PlayClick)
              = initialState\<lparr>audioContext := Some (nextHandle h),
                  oscillator := Some (nextHandle h + 1), gainNode := Some (nextHandle h + 2),
                  filterNode := Some (nextHandle h + 3)\<rparr>
            \<and> calls (audio (step (initialApp h) PlayClick))
              = calls h @ graphCalls initialState (nextHandle h))
       \<and> (audioContext (synth (run h0 evs)) = None \<longrightarrow>
            audioContext (setupSeen (run h0 evs)) = None
            \<and> setupDeps (setupSeen (run h0 evs)) = setupDeps (synth (run h0 evs)))"
proof -
  have c: "audioContext (synth (run h0 evs)) = None \<longrightarrow>
            audioContext (setupSeen (run h0 evs)) = None
            \<and> setupDeps (setupSeen (run h0 evs)) = setupDeps (synth (run h0 evs))"
    using coherent_run [of h0 evs] by (simp add: coherent_def)
  have g: "gesture a PlayClick = setupAudio (setupSeen a) (audio a, [])"
    using assms by (simp add: gesture_def handlePlayStop_def)
  have t: "\<not> list_ex togglesPlaying (snd (gesture a PlayClick))"
    by (simp add: g setupAudio_no_toggle)
  have p: "isPlaying (synth (step a PlayClick)) = isPlaying (synth a)"
    using assms t by (simp add: step_def synth_render no_toggle_foldl)
  have f: "\<not> list_ex isFade (drop (length (calls (audio a))) (calls (fst (gesture a PlayClick))))"
    by (simp add: g setupAudio_no_fade)
  have i: "supplies h (constructions h) \<longrightarrow>
            synth (step (initialApp h) PlayClick)
              = initialState\<lparr>audioContext := Some (nextHandle h),
                  oscillator := Some (nextHandle h + 1), gainNode := Some (nextHandle h + 2),
                  filterNode := Some (nextHandle h + 3)\<rparr>
            \<and> calls (audio (step (initialApp h) PlayClick))
              = calls h @ graphCalls initialState (nextHandle h)"
  proof
    assume s: "supplies h (constructions h)"
    have n: "audioContext initialState = None" by (simp add: initialState_def)
    have e: "gesture (initialApp h) PlayClick =
       (h\<lparr>constructions := Suc (constructions h), nextHandle := nextHandle h + 4,
          calls := calls h @ graphCalls initialState (nextHandle h)\<rparr>,
        graphActions (nextHandle h))"
      using setupAudio_supplied [OF n s, of "[]"]
      by (simp add: gesture_def handlePlayStop_def initialApp_def n)
    show "synth (step (initialApp h) PlayClick)
              = initialState\<lparr>audioContext := Some (nextHandle h),
                  oscillator := Some (nextHandle h + 1), gainNode := Some (nextHandle h + 2),
                  filterNode := Some (nextHandle h + 3)\<rparr>
            \<and> calls (audio (step (initialApp h) PlayClick))
              = calls h @ graphCalls initialState (nextHandle h)"
    proof -
      have m: "mounted (initialApp h)" by (simp add: initialApp_def)
      have st: "step (initialApp h) PlayClick =
         render (initialApp h)
           (h\<lparr>constructions := Suc (constructions h), nextHandle := nextHandle h + 4,
              calls := calls h @ graphCalls initialState (nextHandle h)\<rparr>,
            graphActions (nextHandle h))"
        by (simp add: step_def m e)
      show ?thesis unfolding st
        by (simp add: render_def Let_def graphActions_def teardown_nothing
            initialApp_def initialState_def graphDeps_def)
    qed
  qed
  from g t p f i c show ?thesis by simp
qed

theorem play_without_context_only_creates_graph_witness:
  "mounted (initialApp willingHost) \<and> audioContext (synth (initialApp willingHost)) = None
   \<and> supplies willingHost (constructions willingHost)
   \<and> synth (step (initialApp willingHost) PlayClick)
       = initialState\<lparr>audioContext := Some 0, oscillator := Some 1, gainNode := Some 2,
           filterNode := Some 3\<rparr>
   \<and> isPlaying (synth (step (initialApp willingHost) PlayClick)) = False
   \<and> calls (audio (step (initialApp willingHost) PlayClick)) = graphCalls initialState 0"
proof -
  have m: "mounted (initialApp willingHost)" by (simp add: initialApp_def)
  have n: "audioContext (synth (initialApp willingHost)) = None"
    by (simp add: initialApp_def initialState_def)
  have s: "supplies willingHost (constructions willingHost)" by (simp add: willingHost_def)
  have z: "nextHandle willingHost = 0" "calls willingHost = []" by (simp_all add: willingHost_def)
  have p: "isPlaying (synth (initialApp willingHost)) = False"
    by (simp add: initialApp_def initialState_def)
  from play_without_context_only_creates_graph [OF m n, of willingHost] m n s z p
  show ?thesis by (simp add: initialState_def)
qed

text \<open>
  C7 (as the code has it). In a reachable, mounted state without an audio context, a
  click on the play/stop button whose construction the host refuses records the message
  in \<open>error\<close> and changes nothing else, so the synth is still not playing. When the host
  supplies the context, the click installs it and leaves \<open>error\<close> as it was. No event at
  all, in any state, empties a populated \<open>error\<close>: the program never dispatches
  \<^verbatim>\<open>SET_ERROR\<close> without a message.
\<close>

theorem failed_setup_records_error:
  assumes "mounted (run h evs)" "audioContext (synth (run h evs)) = None"
  shows "(\<not> supplies (audio (run h evs)) (constructions (audio (run h evs))) \<longrightarrow>
            synth (step (run h evs) PlayClick)
              = (synth (run h evs))\<lparr>error := Some (''Failed to setup audio: ''
                    @ constructorMessage (audio (run h evs)))\<rparr>
            \<and> \<not> isPlaying (synth (step (run h evs) PlayClick)))
       \<and> (supplies (audio (run h evs)) (constructions (audio (run h evs))) \<longrightarrow>
            audioContext (synth (step (run h evs) PlayClick))
              = Some (nextHandle (audio (run h evs)))
            \<and> error (synth (step (run h evs) PlayClick)) = error (synth (run h evs)))
       \<and> (error (synth a) \<noteq> None \<longrightarrow> error (synth (step a ev)) \<noteq> None)"
proof -
  define a0 where "a0 = run h evs"
  have co: "coherent a0" unfolding a0_def by (rule coherent_run)
  from assms have m: "mounted a0" and n: "audioContext (synth a0) = None"
    by (simp_all add: a0_def)
  from co n have sn: "audioContext (setupSeen a0) = None" and np: "\<not> isPlaying (synth a0)"
    by (simp_all add: coherent_def)
  have g: "gesture a0 PlayClick = setupAudio (setupSeen a0) (audio a0, [])"
    using n by (simp add: gesture_def handlePlayStop_def)
  have st: "step a0 PlayClick = render a0 (setupAudio (setupSeen a0) (audio a0, []))"
    using m by (simp add: step_def g)
  have r: "\<not> supplies (audio a0) (constructions (audio a0)) \<longrightarrow>
            synth (step a0 PlayClick)
              = (synth a0)\<lparr>error := Some (''Failed to setup audio: ''
                    @ constructorMessage (audio a0))\<rparr>
            \<and> \<not> isPlaying (synth (step a0 PlayClick))"
    using np by (simp add: st synth_render setupAudio_refused [OF sn])
  have s: "supplies (audio a0) (constructions (audio a0)) \<longrightarrow>
            audioContext (synth (step a0 PlayClick)) = Some (nextHandle (audio a0))
            \<and> error (synth (step a0 PlayClick)) = error (synth a0)"
    by (simp add: st synth_render setupAudio_supplied [OF sn] graphActions_def)
  have k: "error (synth a) \<noteq> None \<longrightarrow> error (synth (step a ev)) \<noteq> None"
    using error_kept_step [of a ev] by blast
  from r s k show ?thesis unfolding a0_def by blast
qed

theorem failed_setup_records_error_witness:
  "mounted (run reluctantHost []) \<and> audioContext (synth (run reluctantHost [])) = None
   \<and> \<not> supplies (audio (run reluctantHost [])) (constructions (audio (run reluctantHost [])))
   \<and> error (synth (step (run reluctantHost []) PlayClick))
       = Some ''Failed to setup audio: not allowed''
   \<and> \<not> isPlaying (synth (step (run reluctantHost []) PlayClick))
   \<and> error (synth (step (step (run reluctantHost []) PlayClick) PlayClick)) \<noteq> None"
proof -
  have m: "mounted (run reluctantHost [])" by code_simp
  have n: "audioContext (synth (run reluctantHost [])) = None" by code_simp
  have s: "\<not> supplies (audio (run reluctantHost [])) (constructions (audio (run reluctantHost [])))"
    by code_simp
  have c: "constructorMessage (audio (run reluctantHost [])) = ''not allowed''" by code_simp
  note t = failed_setup_records_error [OF m n, of "step (run reluctantHost []) PlayClick" PlayClick]
  from t s have u: "synth (step (run reluctantHost []) PlayClick)
              = (synth (run reluctantHost []))\<lparr>error := Some (''Failed to setup audio: ''
                    @ constructorMessage (audio (run reluctantHost [])))\<rparr>"
    and p: "\<not> isPlaying (synth (step (run reluctantHost []) PlayClick))"
    by blast+
  from u c have e: "error (synth (step (run reluctantHost []) PlayClick))
       = Some ''Failed to setup audio: not allowed''"
    by simp
  from t e have k: "error (synth (step (step (run reluctantHost []) PlayClick) PlayClick)) \<noteq> None"
    by simp
  from m n s e p k show ?thesis by blast
qed

text \<open>
  The host refuses the first construction and supplies the second: after the second
  click the graph is installed and the message of the first failure is still in the
  state.
\<close>

theorem error_survives_successful_setup:
  "error (synth (run reluctantHost [PlayClick])) = Some ''Failed to setup audio: not allowed''
   \<and> isPlaying (synth (run reluctantHost [PlayClick])) = False
   \<and> audioContext (synth (run reluctantHost [PlayClick])) = None
   \<and> audioContext (synth (run reluctantHost [PlayClick, PlayClick])) = Some 0
   \<and> gainNode (synth (run reluctantHost [PlayClick, PlayClick])) = Some 2
   \<and> error (synth (run reluctantHost [PlayClick, PlayClick]))
       = Some ''Failed to setup audio: not allowed''"
  by code_simp

section \<open>Claims about the listeners of a control\<close>





section \<open>Claims about the keys and the creation of the graph\<close>

text \<open>
  C4. Pressing a key while the synth is stopped should leave it playing at the pitch of
  the key. On a freshly mounted synth it does not: the handlers of the key were created
  by a render without an audio context, so after its own \<open>setupAudio\<close> the key handler
  calls \<open>handlePlayStop\<close>, which still sees no context, calls \<open>setupAudio\<close> once more
  and returns. The frequency is the pitch of the key, the synth is not playing and no
  fade was scheduled.
\<close>

theorem first_key_press_does_not_play:
  "audioContext (synth (initialApp willingHost)) = None
   \<and> isPlaying (synth (initialApp willingHost)) = False
   \<and> isPlaying (synth (step (initialApp willingHost) (KeyDown 0))) = False
   \<and> frequency (synth (step (initialApp willingHost) (KeyDown 0))) = 26163 / 100
   \<and> list_ex isFade (calls (audio (step (initialApp willingHost) (KeyDown 0)))) = False"
  by code_simp


text \<open>
  C5. Calling \<open>setupAudio\<close> twice in a row should create one graph. Two calls of the
  callback of one render both read the audio context of that render, so on a state
  without a context each of them constructs a context and its three nodes and dispatches
  its references. The first key press on a freshly mounted synth makes these two calls:
  the host is asked for two contexts, and the state ends up with the second.
\<close>

theorem setupAudio_twice_creates_two_graphs:
  "snd (setupAudio initialState (setupAudio initialState (willingHost, [])))
     = graphActions 0 @ graphActions 4
   \<and> filter isNewContext
        (calls (fst (setupAudio initialState (setupAudio initialState (willingHost, [])))))
     = [NewAudioContext 0, NewAudioContext 4]
   \<and> filter isNewContext (calls (audio (step (initialApp willingHost) (KeyDown 0))))
     = [NewAudioContext 0, NewAudioContext 4]
   \<and> audioContext (synth (step (initialApp willingHost) (KeyDown 0))) = Some 4"
  by code_simp

end
